theory Spec2Isabelle
  imports Complex_Main "HOL-Library.Sublist"
begin

section \<open>The attractor catalog (attractors.py)\<close>

text \<open>
  Python floats are modelled as \<^typ>\<open>real\<close>: a float literal stands for the decimal it
  is written as, and rounding is not represented. Python integers are \<^typ>\<open>int\<close>, list
  lengths and indices \<^typ>\<open>nat\<close>. A dictionary with string keys is a map
  \<open>string \<rightharpoonup> 'v\<close>. Every exception the modelled code can raise is a value of
  \<open>error\<close>, and a function that can raise returns \<open>error + 'a\<close>.
\<close>

datatype error =
    KeyError string
  | ValueError
  | TypeError
  | ZeroDivisionError
  | IndexError
  | LinAlgError

record AttractorParam =
  name :: string
  default :: real
  min_val :: real
  max_val :: real
  step :: real

text \<open>
  An equation is called by the solver as \<open>func(y, t, *args)\<close>: the state, the time and
  the tuple of parameter values, here a list. Binding a tuple of the wrong length to the
  positional parameters raises TypeError; unpacking \<open>x, y, z = x_var\<close> from a state that
  does not have three components raises ValueError.
\<close>

type_synonym equation = "real list \<Rightarrow> real \<Rightarrow> real list \<Rightarrow> error + real list"

record AttractorConfig =
  name :: string
  equation :: equation
  params :: "AttractorParam list"
  initial_conditions :: "real list"
  time_defaults :: "string \<rightharpoonup> int"

fun lorenz :: equation where
  "lorenz x_var t [sigma, rho, beta] =
     (case x_var of
        [x, y, z] \<Rightarrow>
          (let dx_dt = sigma * (y - x);
               dy_dt = x * (rho - z) - y;
               dz_dt = x * y - beta * z
           in Inr [dx_dt, dy_dt, dz_dt])
      | _ \<Rightarrow> Inl ValueError)"
| "lorenz x_var t args = Inl TypeError"

definition lorenz_attractor :: AttractorConfig where
  "lorenz_attractor =
     \<lparr>AttractorConfig.name = ''lorenz'',
      equation = lorenz,
      params =
        [\<lparr>AttractorParam.name = ''sigma'', default = 10.0, min_val = 0.0, max_val = 50.0, step = 0.1\<rparr>,
         \<lparr>AttractorParam.name = ''rho'', default = 28.0, min_val = 0.0, max_val = 50.0, step = 0.1\<rparr>,
         \<lparr>AttractorParam.name = ''beta'', default = 2.67, min_val = 0.0, max_val = 50.0, step = 0.1\<rparr>],
      initial_conditions = [0.0, 1.5, 15.0],
      time_defaults = [''t_min'' \<mapsto> 0, ''t_max'' \<mapsto> 50, ''n'' \<mapsto> 10000]\<rparr>"

fun rossler :: equation where
  "rossler x_var t [a, b, c] =
     (case x_var of
        [x, y, z] \<Rightarrow>
          (let dxdt = - y - z;
               dydt = x + (a * y);
               dzdt = b + z * (x - c)
           in Inr [dxdt, dydt, dzdt])
      | _ \<Rightarrow> Inl ValueError)"
| "rossler x_var t args = Inl TypeError"

definition rossler_attractor :: AttractorConfig where
  "rossler_attractor =
     \<lparr>AttractorConfig.name = ''Rossler attractor'',
      equation = rossler,
      params =
        [\<lparr>AttractorParam.name = ''a'', default = 0.2, min_val = 0.0, max_val = 1.0, step = 0.01\<rparr>,
         \<lparr>AttractorParam.name = ''b'', default = 0.2, min_val = 0.0, max_val = 1.0, step = 0.01\<rparr>,
         \<lparr>AttractorParam.name = ''c'', default = 5.7, min_val = 0.0, max_val = 20.0, step = 0.01\<rparr>],
      initial_conditions = [1.0, 1.0, 1.0],
      time_defaults = [''t_min'' \<mapsto> 0, ''t_max'' \<mapsto> 100, ''n'' \<mapsto> 10000]\<rparr>"

fun dadras :: equation where
  "dadras x_var t [a, b, c, d, e] =
     (case x_var of
        [x, y, z] \<Rightarrow>
          (let dxdt = y - a * x + b * y * z;
               dydt = c * y - x * z + z;
               dzdt = d * x * y - e * z
           in Inr [dxdt, dydt, dzdt])
      | _ \<Rightarrow> Inl ValueError)"
| "dadras x_var t args = Inl TypeError"

definition dadras_attractor :: AttractorConfig where
  "dadras_attractor =
     \<lparr>AttractorConfig.name = ''Dadras attractor'',
      equation = dadras,
      params =
        [\<lparr>AttractorParam.name = ''a'', default = 3.0, min_val = - 10.0, max_val = 10.0, step = 0.1\<rparr>,
         \<lparr>AttractorParam.name = ''b'', default = 2.7, min_val = - 10.0, max_val = 10.0, step = 0.1\<rparr>,
         \<lparr>AttractorParam.name = ''c'', default = 1.7, min_val = - 10.0, max_val = 10.0, step = 0.1\<rparr>,
         \<lparr>AttractorParam.name = ''d'', default = 2.0, min_val = - 10.0, max_val = 10.0, step = 0.1\<rparr>,
         \<lparr>AttractorParam.name = ''e'', default = 9.0, min_val = - 10.0, max_val = 10.0, step = 0.1\<rparr>],
      initial_conditions = [1.1, 2.1, - 2],
      time_defaults = [''t_min'' \<mapsto> 0, ''t_max'' \<mapsto> 75, ''n'' \<mapsto> 10000]\<rparr>"

definition ATTRACTORS :: "string \<rightharpoonup> AttractorConfig" where
  "ATTRACTORS =
     [''Lorenz'' \<mapsto> lorenz_attractor,
      ''Rossler'' \<mapsto> rossler_attractor,
      ''Dadras'' \<mapsto> dadras_attractor]"

text \<open>A dictionary subscript \<open>d[key]\<close> raises KeyError for a key that is not stored.\<close>

definition getitem :: "(string \<rightharpoonup> 'v) \<Rightarrow> string \<Rightarrow> error + 'v" where
  "getitem d key = (case d key of None \<Rightarrow> Inl (KeyError key) | Some v \<Rightarrow> Inr v)"

text \<open>
  The catalog lookup is the subscript \<open>ATTRACTORS[selected_name]\<close> of plot.py (line 33);
  the specification calls it \<open>get_definition\<close>.
\<close>

definition get_definition :: "string \<Rightarrow> error + AttractorConfig" where
  "get_definition selected_name = getitem ATTRACTORS selected_name"

section \<open>Solving an attractor (attractors.py)\<close>

text \<open>
  \<open>np.linspace(start, stop, num)\<close> of the numpy library, with its default
  \<open>endpoint=True\<close>: \<open>num\<close> evenly spaced samples, the last one set to \<open>stop\<close>; a
  negative \<open>num\<close> raises ValueError.
\<close>

definition linspace :: "real \<Rightarrow> real \<Rightarrow> int \<Rightarrow> error + real list" where
  "linspace start stop num =
     (if num < 0 then Inl ValueError
      else
        (let n = nat num;
             dv = n - 1;
             delta = stop - start;
             y = (if 0 < dv then map (\<lambda>i. real i * (delta / real dv) + start) [0..<n]
                  else map (\<lambda>i. real i * delta + start) [0..<n])
         in Inr (if 1 < n then y[n - 1 := stop] else y)))"

text \<open>
  The generator \<open>param_values[p.name] for p in config.params\<close>, collected into a tuple:
  the values in the order of the schema, KeyError at the first name that
  \<open>param_values\<close> does not hold.
\<close>

fun param_args :: "(string \<rightharpoonup> real) \<Rightarrow> AttractorParam list \<Rightarrow> error + real list" where
  "param_args param_values [] = Inr []"
| "param_args param_values (p # ps) =
     (case getitem param_values (AttractorParam.name p) of
        Inl e \<Rightarrow> Inl e
      | Inr v \<Rightarrow>
          (case param_args param_values ps of
             Inl e \<Rightarrow> Inl e
           | Inr vs \<Rightarrow> Inr (v # vs)))"

text \<open>
  \<open>scipy.integrate.odeint\<close> is an external solver and is a parameter of the model: it
  takes the equation, the initial state, the time grid and the argument tuple, and
  returns the array of states, one row per grid point, or raises.
\<close>

type_synonym odeint_solver =
  "equation \<Rightarrow> real list \<Rightarrow> real list \<Rightarrow> real list \<Rightarrow> error + real list list"

definition solve_attractor ::
  "odeint_solver \<Rightarrow> AttractorConfig \<Rightarrow> (string \<rightharpoonup> real) \<Rightarrow> error + real list list" where
  "solve_attractor odeint config param_values =
     (let t_def = time_defaults config in
      case getitem t_def ''t_min'' of Inl e \<Rightarrow> Inl e | Inr t_min \<Rightarrow>
      (case getitem t_def ''t_max'' of Inl e \<Rightarrow> Inl e | Inr t_max \<Rightarrow>
      (case getitem t_def ''n'' of Inl e \<Rightarrow> Inl e | Inr n \<Rightarrow>
      (case linspace (real_of_int t_min) (real_of_int t_max) n of Inl e \<Rightarrow> Inl e | Inr t \<Rightarrow>
      (case param_args param_values (params config) of Inl e \<Rightarrow> Inl e | Inr args \<Rightarrow>
         odeint (equation config) (initial_conditions config) t args)))))"

text \<open>
  The dictionary comprehension \<open>{p.name: p.default for p in config.params}\<close>: entries are
  stored in schema order, a later entry replacing an earlier one of the same name.
\<close>

definition get_default_params :: "AttractorConfig \<Rightarrow> (string \<rightharpoonup> real)" where
  "get_default_params config =
     foldl (\<lambda>d p. d(AttractorParam.name p \<mapsto> default p)) Map.empty (params config)"

section \<open>Animation frames and density colouring (plot.py)\<close>

text \<open>
  \<open>range(start, stop, step)\<close> for non-negative bounds: the loop that counts from
  \<open>start\<close> in strides of \<open>step\<close> while below \<open>stop\<close>. A zero step raises
  ValueError.
\<close>

function range_from :: "nat \<Rightarrow> nat \<Rightarrow> nat \<Rightarrow> nat list" where
  "range_from i stop stride =
     (if 0 < stride \<and> i < stop then i # range_from (i + stride) stop stride else [])"
  by pat_completeness auto
termination
  by (relation "measure (\<lambda>(i, stop, stride). stop - i)") auto

definition py_range :: "nat \<Rightarrow> nat \<Rightarrow> nat \<Rightarrow> error + nat list" where
  "py_range start stop stride =
     (if stride = 0 then Inl ValueError else Inr (range_from start stop stride))"

text \<open>
  One animation frame, \<open>go.Frame(data=[go.Scatter3d(x=x[:i], y=y[:i], z=z[:i], ...)],
  name=str(i))\<close>: the three coordinate prefixes, and the index \<open>i\<close> that names the frame
  (kept as the number, not its decimal string). The marker options are presentation
  only and are left out. \<open>frame_at x y z i\<close> is that expression for the loop variable
  \<open>i\<close>.
\<close>

record 'a Frame =
  frame_x :: "'a list"
  frame_y :: "'a list"
  frame_z :: "'a list"
  frame_name :: nat

text \<open>
  The animate branch of \<open>plot_attractor\<close> (plot.py, lines 90 to 102), which the
  specification calls \<open>make_frames\<close>. The source fixes the frame budget to the literal
  300; \<open>make_frames\<close> takes it as \<open>max_frames\<close> and \<open>animate_frames\<close> is the source's
  instance. The floor division raises ZeroDivisionError for a zero budget.
\<close>

definition frame_at :: "'a list \<Rightarrow> 'a list \<Rightarrow> 'a list \<Rightarrow> nat \<Rightarrow> 'a Frame" where
  "frame_at x y z i =
     \<lparr>frame_x = take i x, frame_y = take i y, frame_z = take i z, frame_name = i\<rparr>"

definition make_frames ::
  "nat \<Rightarrow> 'a list \<Rightarrow> 'a list \<Rightarrow> 'a list \<Rightarrow> error + 'a Frame list" where
  "make_frames max_frames x y z =
     (if max_frames = 0 then Inl ZeroDivisionError
      else
        (let stride = max 1 (length x div max_frames) in
         case py_range stride (length x) stride of
           Inl e \<Rightarrow> Inl e
         | Inr stops \<Rightarrow> Inr (map (frame_at x y z) stops)))"

definition animate_frames :: "'a list \<Rightarrow> 'a list \<Rightarrow> 'a list \<Rightarrow> error + 'a Frame list" where
  "animate_frames x y z = make_frames 300 x y z"

text \<open>
  Indexing an array with an array of indices, \<open>x[indices]\<close>: the selected elements in
  the order of the indices, IndexError when an index is out of bounds.
\<close>

definition getitems :: "'a list \<Rightarrow> nat list \<Rightarrow> error + 'a list" where
  "getitems x indices =
     (if \<forall>i \<in> set indices. i < length x then Inr (map (\<lambda>i. x ! i) indices)
      else Inl IndexError)"

text \<open>
  The density branch of \<open>plot_attractor\<close> (plot.py, lines 78 to 83), which the
  specification calls \<open>estimate_density\<close>. Two library calls are parameters of the model:
  \<^item> \<open>choice\<close> stands for \<open>np.random.choice(n, sample_size, replace=False)\<close>: the
    indices that the generator draws in this run;
  \<^item> \<open>gaussian_kde\<close> stands for \<open>scipy.stats.gaussian_kde\<close>: fitting the two rows of a
    dataset gives a density function or raises; calling the fitted object on an array of
    points evaluates that function at every column of the array, in order.
  The source fixes the sample bound to the literal 1000; \<open>estimate_density\<close> takes it as
  \<open>max_sample_size\<close> and \<open>density_colouring\<close> is the source's instance. A negative
  sample size is refused by the generator, and \<open>np.vstack\<close> refuses rows of different
  lengths, both with ValueError.
\<close>

type_synonym kde_fit = "real list \<times> real list \<Rightarrow> error + (real \<times> real \<Rightarrow> real)"

definition estimate_density ::
  "(nat \<Rightarrow> nat \<Rightarrow> nat list) \<Rightarrow> kde_fit \<Rightarrow> int \<Rightarrow> int \<Rightarrow> real list \<Rightarrow> real list
     \<Rightarrow> error + real list" where
  "estimate_density choice gaussian_kde max_sample_size n x y =
     (let sample_size = min max_sample_size n in
      if sample_size < 0 then Inl ValueError
      else
        (let indices = choice (nat n) (nat sample_size) in
         case getitems x indices of Inl e \<Rightarrow> Inl e | Inr xs \<Rightarrow>
         (case getitems y indices of Inl e \<Rightarrow> Inl e | Inr ys \<Rightarrow>
         (case gaussian_kde (xs, ys) of Inl e \<Rightarrow> Inl e | Inr kde \<Rightarrow>
            (if length x \<noteq> length y then Inl ValueError
             else Inr (map kde (zip x y)))))))"

definition density_colouring ::
  "(nat \<Rightarrow> nat \<Rightarrow> nat list) \<Rightarrow> kde_fit \<Rightarrow> int \<Rightarrow> real list \<Rightarrow> real list \<Rightarrow> error + real list" where
  "density_colouring choice gaussian_kde n x y = estimate_density choice gaussian_kde 1000 n x y"

text \<open>
  The contract of \<open>np.random.choice(n, k, replace=False)\<close> for \<open>k \<le> n\<close>: the draw
  holds \<open>k\<close> indices below \<open>n\<close>, none of them twice. Which indices are drawn, and
  with what probability, is not modelled.
\<close>

definition without_replacement :: "(nat \<Rightarrow> nat \<Rightarrow> nat list) \<Rightarrow> bool" where
  "without_replacement choice \<longleftrightarrow>
     (\<forall>n k. k \<le> n \<longrightarrow>
        length (choice n k) = k \<and> distinct (choice n k) \<and> (\<forall>i \<in> set (choice n k). i < n))"

section \<open>A reference solver\<close>

text \<open>
  Where a theorem about \<open>solve_attractor\<close> is applied to a concrete solver, the explicit
  Euler method on the time grid is used: the first row is the initial state, and each
  further row adds the derivative at the previous grid point times the grid spacing. An
  empty grid is refused, and an error of the equation is passed on. It stands in for the
  external solver only in such instances.
\<close>

fun euler_rows ::
  "equation \<Rightarrow> real list \<Rightarrow> real \<Rightarrow> real list \<Rightarrow> real list \<Rightarrow> error + real list list" where
  "euler_rows func args t0 y [] = Inr [y]"
| "euler_rows func args t0 y (t1 # ts) =
     (case func y t0 args of
        Inl e \<Rightarrow> Inl e
      | Inr dydt \<Rightarrow>
          (case euler_rows func args t1 (map2 (\<lambda>v d. v + (t1 - t0) * d) y dydt) ts of
             Inl e \<Rightarrow> Inl e
           | Inr rows \<Rightarrow> Inr (y # rows)))"

definition euler_odeint :: odeint_solver where
  "euler_odeint func y0 t args =
     (case t of [] \<Rightarrow> Inl ValueError | t0 # ts \<Rightarrow> euler_rows func args t0 y0 ts)"

text \<open>
  The solver contract of the specification, on the grids that the external solver
  accepts: for the equation and initial state of a definition, the solver returns one
  state per point of a non-empty, strictly ascending grid, whatever values are bound to
  the parameters. Nothing is asked of the solver on any other grid, where it may raise.
\<close>

definition row_per_sample :: "odeint_solver \<Rightarrow> AttractorConfig \<Rightarrow> bool" where
  "row_per_sample odeint config \<longleftrightarrow>
     (\<forall>t args. t \<noteq> [] \<and> sorted_wrt (<) t \<and> length args = length (params config) \<longrightarrow>
        (\<exists>rows. odeint (equation config) (initial_conditions config) t args = Inr rows \<and>
                length rows = length t))"

section \<open>Auxiliary lemmas\<close>

lemma getitem_Some: "d k = Some v \<Longrightarrow> getitem d k = Inr v"
  by (simp add: getitem_def)

lemma getitem_None: "d k = None \<Longrightarrow> getitem d k = Inl (KeyError k)"
  by (simp add: getitem_def)

lemma linspace_length: "0 \<le> num \<Longrightarrow> \<exists>t. linspace a b num = Inr t \<and> length t = nat num"
  by (simp add: linspace_def Let_def)

lemma linspace_ends:
  assumes "1 < num" and "linspace a b num = Inr t"
  shows "hd t = a \<and> last t = b"
proof -
  define n where "n = nat num"
  define y where "y = map (\<lambda>i. real i * ((b - a) / real (n - 1)) + a) [0..<n]"
  have n: "1 < n" using assms(1) by (simp add: n_def)
  have t: "t = y[n - 1 := b]"
    using assms n by (simp add: linspace_def Let_def n_def y_def split: if_splits)
  have len: "length y = n" by (simp add: y_def)
  have lt: "length t = n" using len t by simp
  then have ne: "t \<noteq> []" using n by auto
  have "hd t = t ! 0" using ne by (simp add: hd_conv_nth)
  also have "\<dots> = y ! 0" using n t by simp
  also have "\<dots> = a" using n by (simp add: y_def)
  finally have h: "hd t = a" .
  have "last t = t ! (n - 1)" using ne lt by (simp add: last_conv_nth)
  also have "\<dots> = b" using n len t by simp
  finally show ?thesis using h by simp
qed

lemma linspace_nth:
  assumes "1 < num" and "linspace a b num = Inr t" and "i < nat num"
  shows "t ! i = real i * ((b - a) / real (nat num - 1)) + a"
proof -
  define n where "n = nat num"
  define y where "y = map (\<lambda>i. real i * ((b - a) / real (n - 1)) + a) [0..<n]"
  have n: "1 < n" using assms(1) by (simp add: n_def)
  have t: "t = y[n - 1 := b]"
    using assms(1,2) n by (simp add: linspace_def Let_def n_def y_def split: if_splits)
  have len: "length y = n" by (simp add: y_def)
  have i: "i < n" using assms(3) by (simp add: n_def)
  show ?thesis
  proof (cases "i = n - 1")
    case True
    have "real (n - 1) \<noteq> 0" using n by simp
    then have "real (n - 1) * ((b - a) / real (n - 1)) + a = b" by simp
    moreover have "t ! i = b" using True t len n by simp
    ultimately show ?thesis using True by (simp add: n_def)
  next
    case False
    then have "t ! i = y ! i" using t by simp
    also have "\<dots> = real i * ((b - a) / real (n - 1)) + a" using i by (simp add: y_def)
    finally show ?thesis by (simp add: n_def)
  qed
qed

lemma linspace_sorted:
  assumes "1 < num" and "a < b" and "linspace a b num = Inr t"
  shows "sorted_wrt (<) t"
proof -
  have len: "length t = nat num"
    using assms(1,3) linspace_length[of num a b] by auto
  have pos: "0 < (b - a) / real (nat num - 1)" using assms(1,2) by simp
  show ?thesis unfolding sorted_wrt_iff_nth_less
  proof (intro allI impI)
    fix i j assume ij: "i < j" and j: "j < length t"
    then have "t ! i = real i * ((b - a) / real (nat num - 1)) + a"
      "t ! j = real j * ((b - a) / real (nat num - 1)) + a"
      using linspace_nth[OF assms(1,3)] len by simp_all
    moreover have "real i < real j" using ij by simp
    then have "real i * ((b - a) / real (nat num - 1)) < real j * ((b - a) / real (nat num - 1))"
      using pos by (rule mult_strict_right_mono)
    ultimately show "t ! i < t ! j" by simp
  qed
qed

lemma param_args_present:
  "(\<forall>p \<in> set ps. pv (AttractorParam.name p) \<noteq> None) \<Longrightarrow>
   param_args pv ps = Inr (map (\<lambda>p. the (pv (AttractorParam.name p))) ps)"
  by (induction ps) (auto simp: getitem_def)

lemma param_args_absent:
  "\<exists>p \<in> set ps. pv (AttractorParam.name p) = None \<Longrightarrow>
   \<exists>q \<in> set ps. pv (AttractorParam.name q) = None \<and> param_args pv ps = Inl (KeyError (AttractorParam.name q))"
proof (induction ps)
  case Nil then show ?case by simp
next
  case (Cons p ps)
  show ?case
  proof (cases "pv (AttractorParam.name p)")
    case None then show ?thesis by (simp add: getitem_def)
  next
    case (Some v)
    with Cons.prems have "\<exists>p \<in> set ps. pv (AttractorParam.name p) = None" by auto
    from Cons.IH[OF this] obtain q where "q \<in> set ps" "pv (AttractorParam.name q) = None"
      "param_args pv ps = Inl (KeyError (AttractorParam.name q))" by blast
    with Some show ?thesis by (auto simp: getitem_def)
  qed
qed

lemma param_args_first_absent:
  "(\<forall>p \<in> set qs. pv (AttractorParam.name p) \<noteq> None) \<Longrightarrow> pv (AttractorParam.name q) = None \<Longrightarrow>
   param_args pv (qs @ q # rs) = Inl (KeyError (AttractorParam.name q))"
  by (induction qs) (auto simp: getitem_def)

lemma param_args_absent_first:
  assumes "\<exists>p \<in> set ps. pv (AttractorParam.name p) = None"
  shows "\<exists>qs q rs. ps = qs @ q # rs \<and> (\<forall>p \<in> set qs. pv (AttractorParam.name p) \<noteq> None) \<and>
           pv (AttractorParam.name q) = None \<and>
           param_args pv ps = Inl (KeyError (AttractorParam.name q))"
proof -
  from split_list_first_prop[OF assms] obtain qs q rs where
    d: "ps = qs @ q # rs" "pv (AttractorParam.name q) = None"
       "\<forall>p \<in> set qs. pv (AttractorParam.name p) \<noteq> None" by blast
  from param_args_first_absent[OF d(3) d(2), of rs] d show ?thesis by blast
qed

lemma defaults_lookup:
  "distinct (map AttractorParam.name ps) \<Longrightarrow> p \<in> set ps \<Longrightarrow>
   foldl (\<lambda>d p. d(AttractorParam.name p \<mapsto> default p)) Map.empty ps (AttractorParam.name p) = Some (default p)"
proof (induction ps rule: rev_induct)
  case Nil then show ?case by simp
next
  case (snoc q qs)
  show ?case
  proof (cases "p = q")
    case True then show ?thesis by simp
  next
    case False
    with snoc.prems have in_qs: "p \<in> set qs" by simp
    have "AttractorParam.name q \<notin> AttractorParam.name ` set qs" using snoc.prems by simp
    with in_qs have "AttractorParam.name p \<noteq> AttractorParam.name q" by (metis imageI)
    with in_qs snoc show ?thesis by simp
  qed
qed

lemma range_from_map:
  "0 < s \<Longrightarrow> range_from i stop s = map (\<lambda>k. i + k * s) [0..<(stop - i + s - 1) div s]"
proof (induction i stop s rule: range_from.induct)
  case (1 i stop s)
  show ?case
  proof (cases "i < stop")
    case False
    then have "(stop - i + s - 1) div s = 0" using 1(2) by simp
    with False show ?thesis by (simp del: range_from.simps add: range_from.simps[of i stop s])
  next
    case True
    define X where "X = stop - (i + s) + s - 1"
    define c where "c = X div s"
    have cnt: "(stop - i + s - 1) div s = Suc c"
    proof (cases "i + s \<le> stop")
      case True
      then have "stop - i + s - 1 = X + s" using 1(2) by (simp add: X_def)
      then have "(stop - i + s - 1) div s = (X + s) div s" by (simp only:)
      then show ?thesis using 1(2) by (simp add: c_def)
    next
      case False
      then have "c = 0" using 1(2) by (simp add: c_def X_def)
      moreover have "s \<le> stop - i + s - 1" "stop - i + s - 1 < 2 * s" using True False by simp_all
      then have "(stop - i + s - 1) div s = 1"
        by (simp add: div_nat_eqI)
      ultimately show ?thesis by simp
    qed
    have "range_from i stop s = i # range_from (i + s) stop s"
      using True 1(2) by (simp del: range_from.simps add: range_from.simps[of i stop s])
    also have "range_from (i + s) stop s = map (\<lambda>k. i + s + k * s) [0..<c]"
      using 1(1)[OF _ 1(2)] True 1(2) by (simp add: c_def X_def)
    also have "i # map (\<lambda>k. i + s + k * s) [0..<c] = map (\<lambda>k. i + k * s) [0..<Suc c]"
      by (simp add: upt_conv_Cons map_Suc_upt[symmetric] del: upt_Suc) 
    finally show ?thesis using cnt by simp
  qed
qed

lemma range_from_stride:
  assumes "0 < s"
  shows "range_from s n s = map (\<lambda>k. (k + 1) * s) [0..<(n - 1) div s]"
proof -
  have "(n - s + s - 1) div s = (n - 1) div s"
  proof (cases "s \<le> n")
    case True then show ?thesis by simp
  next
    case False
    then have "n - s + s - 1 < s" "n - 1 < s" using assms by simp_all
    then show ?thesis by simp
  qed
  then show ?thesis using range_from_map[OF assms, of s n] by simp
qed

lemma make_frames_eq:
  assumes "0 < m"
  shows "make_frames m x y z =
         Inr (map (\<lambda>k. frame_at x y z ((k + 1) * max 1 (length x div m)))
                [0..<(length x - 1) div max 1 (length x div m)])"
proof -
  have "0 < max 1 (length x div m)" by simp
  from range_from_stride[OF this, of "length x"] assms show ?thesis
    by (simp add: make_frames_def py_range_def Let_def comp_def del: range_from.simps)
qed

lemma frame_count_bound:
  assumes "0 < m"
  shows "(n - 1) div max 1 (n div m) \<le> 2 * m - (2::nat)"
proof (cases "n < m")
  case True
  then have "max 1 (n div m) = 1" by simp
  then show ?thesis using True by simp
next
  case False
  define q where "q = n div m"
  have "0 < n div m" using False assms by (simp add: div_greater_zero_iff)
  then have q: "1 \<le> q" by (simp add: q_def)
  have n: "n = q * m + n mod m" by (simp add: q_def)
  have r: "n mod m < m" using assms by simp
  show ?thesis
  proof (cases "m = 1")
    case True
    then have "q = n" by (simp add: q_def)
    then have "(n - 1) div max 1 q = 0" using q by simp
    then show ?thesis by (simp add: q_def)
  next
    case False
    then have m2: "2 \<le> m" using assms by simp
    have "n - 1 \<le> q * m + (m - 2)" using n r by linarith
    also have "m - 2 \<le> q * (m - 2)" using q by simp
    also have "q * m + q * (m - 2) = (2 * m - 2) * q" using m2 by (simp add: algebra_simps)
    finally have "n - 1 \<le> (2 * m - 2) * q" by simp
    then have "(n - 1) div q \<le> 2 * m - 2" using q
      by (metis div_le_mono div_mult_self_is_m less_eq_Suc_le One_nat_def)
    moreover have "max 1 q = q" using q by simp
    ultimately show ?thesis by (simp add: q_def)
  qed
qed

lemma frame_stop_below:
  assumes "0 < (s::nat)" "k < (n - 1) div s"
  shows "(k + 1) * s < n"
proof -
  have "0 < (n - 1) div s" using assms by simp
  then have n: "0 < n" by (cases n) simp_all
  have "k + 1 \<le> (n - 1) div s" using assms by simp
  then have "(k + 1) * s \<le> ((n - 1) div s) * s" by (rule mult_le_mono1)
  also have "\<dots> \<le> n - 1" by simp
  finally show ?thesis using n by simp
qed

lemma take_strict_prefix:
  assumes "a < b" "b \<le> length x"
  shows "strict_prefix (take a x) (take b x)"
proof -
  have "take a x = take a (take b x)" using assms by (simp add: min_def)
  then have "prefix (take a x) (take b x)" by (metis take_is_prefix)
  moreover have "length (take a x) \<noteq> length (take b x)" using assms by simp
  then have "take a x \<noteq> take b x" by (metis (no_types))
  ultimately show ?thesis by (simp add: strict_prefix_def)
qed

lemma ATTRACTORS_cases:
  assumes "ATTRACTORS key = Some config"
  shows "(key = ''Lorenz'' \<and> config = lorenz_attractor) \<or>
         (key = ''Rossler'' \<and> config = rossler_attractor) \<or>
         (key = ''Dadras'' \<and> config = dadras_attractor)"
  using assms by (auto simp: ATTRACTORS_def split: if_splits)

lemma euler_rows_length:
  assumes "\<And>y t. length y = k \<Longrightarrow> \<exists>d. func y t args = Inr d \<and> length d = k"
    and "length y0 = k"
  shows "\<exists>rows. euler_rows func args t0 y0 ts = Inr rows \<and> length rows = Suc (length ts)"
  using assms(2)
proof (induction ts arbitrary: t0 y0)
  case Nil
  then show ?case by simp
next
  case (Cons t1 ts)
  from assms(1)[OF Cons.prems, of t0] obtain d where d: "func y0 t0 args = Inr d" "length d = k"
    by blast
  have "length (map2 (\<lambda>v d. v + (t1 - t0) * d) y0 d) = k" using d(2) Cons.prems by simp
  from Cons.IH[OF this, of t1] obtain rows where
    "euler_rows func args t1 (map2 (\<lambda>v d. v + (t1 - t0) * d) y0 d) ts = Inr rows"
    "length rows = Suc (length ts)" by blast
  with d show ?case by simp
qed

lemma euler_odeint_rows:
  assumes "\<And>y t. length y = k \<Longrightarrow> \<exists>d. func y t args = Inr d \<and> length d = k"
    and "length y0 = k" and "t \<noteq> []"
  shows "\<exists>rows. euler_odeint func y0 t args = Inr rows \<and> length rows = length t"
proof -
  from assms(3) obtain t0 ts where t: "t = t0 # ts" by (cases t) auto
  from euler_rows_length[of k func args y0 t0 ts, OF assms(1,2)] show ?thesis
    by (simp add: euler_odeint_def t)
qed

lemma length3: "length xs = 3 \<Longrightarrow> \<exists>a b c. xs = [a, b, c]"
  by (cases xs; cases "tl xs"; cases "tl (tl xs)") auto

lemma length5: "length xs = 5 \<Longrightarrow> \<exists>a b c d e. xs = [a, b, c, d, e]"
proof -
  assume "length xs = 5"
  then obtain a ys where xs: "xs = a # ys" "length ys = 4" by (cases xs) auto
  then obtain b zs where ys: "ys = b # zs" "length zs = 3" by (cases ys) auto
  from length3[OF ys(2)] xs ys show ?thesis by auto
qed

lemma lorenz_closed:
  "length args = 3 \<Longrightarrow> length y = 3 \<Longrightarrow> \<exists>d. lorenz y t args = Inr d \<and> length d = 3"
  using length3[of args] length3[of y] by (auto simp: Let_def)

lemma rossler_closed:
  "length args = 3 \<Longrightarrow> length y = 3 \<Longrightarrow> \<exists>d. rossler y t args = Inr d \<and> length d = 3"
  using length3[of args] length3[of y] by (auto simp: Let_def)

lemma dadras_closed:
  "length args = 5 \<Longrightarrow> length y = 3 \<Longrightarrow> \<exists>d. dadras y t args = Inr d \<and> length d = 3"
  using length5[of args] length3[of y] by (auto simp: Let_def)

lemma euler_row_per_sample:
  assumes "ATTRACTORS key = Some config"
  shows "row_per_sample euler_odeint config"
  using ATTRACTORS_cases[OF assms]
proof (elim disjE conjE)
  assume c: "config = lorenz_attractor"
  show ?thesis unfolding row_per_sample_def
  proof (intro allI impI)
    fix t args :: "real list"
    assume "t \<noteq> [] \<and> sorted_wrt (<) t \<and> length args = length (params config)"
    then have t: "t \<noteq> []" and a: "length args = 3" by (simp_all add: c lorenz_attractor_def)
    have "\<exists>rows. euler_odeint lorenz [0, 1.5, 15] t args = Inr rows \<and> length rows = length t"
      using euler_odeint_rows[of 3 lorenz args "[0, 1.5, 15]" t] lorenz_closed[OF a] t by simp
    then show "\<exists>rows. euler_odeint (equation config) (initial_conditions config) t args = Inr rows \<and>
        length rows = length t" by (simp add: c lorenz_attractor_def)
  qed
next
  assume c: "config = rossler_attractor"
  show ?thesis unfolding row_per_sample_def
  proof (intro allI impI)
    fix t args :: "real list"
    assume "t \<noteq> [] \<and> sorted_wrt (<) t \<and> length args = length (params config)"
    then have t: "t \<noteq> []" and a: "length args = 3" by (simp_all add: c rossler_attractor_def)
    have "\<exists>rows. euler_odeint rossler [1, 1, 1] t args = Inr rows \<and> length rows = length t"
      using euler_odeint_rows[of 3 rossler args "[1, 1, 1]" t] rossler_closed[OF a] t by simp
    then show "\<exists>rows. euler_odeint (equation config) (initial_conditions config) t args = Inr rows \<and>
        length rows = length t" by (simp add: c rossler_attractor_def)
  qed
next
  assume c: "config = dadras_attractor"
  show ?thesis unfolding row_per_sample_def
  proof (intro allI impI)
    fix t args :: "real list"
    assume "t \<noteq> [] \<and> sorted_wrt (<) t \<and> length args = length (params config)"
    then have t: "t \<noteq> []" and a: "length args = 5" by (simp_all add: c dadras_attractor_def)
    have "\<exists>rows. euler_odeint dadras [1.1, 2.1, - 2] t args = Inr rows \<and> length rows = length t"
      using euler_odeint_rows[of 3 dadras args "[1.1, 2.1, - 2]" t] dadras_closed[OF a] t by simp
    then show "\<exists>rows. euler_odeint (equation config) (initial_conditions config) t args = Inr rows \<and>
        length rows = length t" by (simp add: c dadras_attractor_def)
  qed
qed

lemma builtin_time_defaults:
  assumes "ATTRACTORS key = Some config"
  shows "\<exists>t_max. time_defaults config ''t_min'' = Some 0 \<and> time_defaults config ''t_max'' = Some t_max \<and>
           time_defaults config ''n'' = Some 10000 \<and> 0 < t_max"
  using ATTRACTORS_cases[OF assms]
  by (elim disjE conjE) (simp_all add: lorenz_attractor_def rossler_attractor_def dadras_attractor_def)

lemma builtin_distinct_names:
  assumes "ATTRACTORS key = Some config"
  shows "distinct (map AttractorParam.name (params config))"
  using ATTRACTORS_cases[OF assms]
  by (elim disjE conjE) (simp_all add: lorenz_attractor_def rossler_attractor_def dadras_attractor_def)

lemma solve_attractor_grid:
  assumes "ATTRACTORS key = Some config"
  shows "\<exists>t_max t. time_defaults config ''t_min'' = Some 0 \<and>
           time_defaults config ''t_max'' = Some t_max \<and>
           linspace 0 (real_of_int t_max) 10000 = Inr t \<and>
           length t = 10000 \<and> sorted_wrt (<) t \<and> hd t = 0 \<and> last t = real_of_int t_max \<and>
           (\<forall>odeint param_values.
              solve_attractor odeint config param_values =
                (case param_args param_values (params config) of
                   Inl e \<Rightarrow> Inl e
                 | Inr args \<Rightarrow> odeint (equation config) (initial_conditions config) t args))"
proof -
  from builtin_time_defaults[OF assms] obtain t_max where
    td: "time_defaults config ''t_min'' = Some 0" "time_defaults config ''t_max'' = Some t_max"
        "time_defaults config ''n'' = Some 10000" "0 < t_max" by blast
  obtain t where t: "linspace 0 (real_of_int t_max) 10000 = Inr t" "length t = nat 10000"
    using linspace_length[of 10000 0 "real_of_int t_max"] by auto
  have pos: "(0::real) < real_of_int t_max" using td(4) by simp
  have srt: "sorted_wrt (<) t" by (rule linspace_sorted[OF _ pos t(1)]) simp
  have ends: "hd t = 0 \<and> last t = real_of_int t_max" by (rule linspace_ends[OF _ t(1)]) simp
  have "solve_attractor odeint config param_values =
             (case param_args param_values (params config) of
                Inl e \<Rightarrow> Inl e
              | Inr args \<Rightarrow> odeint (equation config) (initial_conditions config) t args)"
    for odeint param_values
    using td t(1) by (simp add: solve_attractor_def getitem_def)
  with td t srt ends show ?thesis by auto
qed

lemma solve_attractor_builtin:
  assumes "ATTRACTORS key = Some config"
  shows "\<exists>t. length t = 10000 \<and> sorted_wrt (<) t \<and>
           solve_attractor odeint config param_values =
             (case param_args param_values (params config) of
                Inl e \<Rightarrow> Inl e
              | Inr args \<Rightarrow> odeint (equation config) (initial_conditions config) t args)"
  using solve_attractor_grid[OF assms] by blast

lemma default_args:
  assumes "distinct (map AttractorParam.name (params config))"
  shows "param_args (get_default_params config) (params config) = Inr (map default (params config))"
proof -
  have look: "get_default_params config (AttractorParam.name p) = Some (default p)"
    if "p \<in> set (params config)" for p
    using defaults_lookup[OF assms that] by (simp add: get_default_params_def)
  then have "\<forall>p \<in> set (params config). get_default_params config (AttractorParam.name p) \<noteq> None"
    by simp
  from param_args_present[OF this] look show ?thesis by simp
qed

lemma rossler_params:
  "params rossler_attractor =
      [\<lparr>AttractorParam.name = ''a'', default = 0.2, min_val = 0.0, max_val = 1.0, step = 0.01\<rparr>,
       \<lparr>AttractorParam.name = ''b'', default = 0.2, min_val = 0.0, max_val = 1.0, step = 0.01\<rparr>,
       \<lparr>AttractorParam.name = ''c'', default = 5.7, min_val = 0.0, max_val = 20.0, step = 0.01\<rparr>]"
  by (simp add: rossler_attractor_def)

lemma getitems_Inr: "getitems x indices = Inr xs \<Longrightarrow> xs = map (\<lambda>i. x ! i) indices"
  by (simp add: getitems_def split: if_splits)

lemma estimate_density_Inr:
  assumes "estimate_density choice gaussian_kde max_sample_size n x y = Inr density"
  shows "0 \<le> min max_sample_size n \<and> length y = length x \<and>
         (\<exists>xs ys kde.
            getitems x (choice (nat n) (nat (min max_sample_size n))) = Inr xs \<and>
            getitems y (choice (nat n) (nat (min max_sample_size n))) = Inr ys \<and>
            gaussian_kde (xs, ys) = Inr kde \<and> density = map kde (zip x y))"
  using assms
  by (auto simp: estimate_density_def Let_def split: if_splits sum.splits)

section \<open>The claims\<close>

text \<open>
  Claim C2, as the code has it. For a frame budget of at least 1, \<open>make_frames\<close> returns
  frames whose stops are the multiples \<open>stride, 2 * stride, ...\<close> of
  \<open>stride = max 1 (length x div max_frames)\<close> that lie below \<open>length x\<close>. Their number
  is \<open>(length x - 1) div stride\<close> in natural numbers, so none for an empty trajectory,
  which is at most \<open>2 * max_frames - 2\<close>; it is not bounded by \<open>max_frames\<close> itself.
\<close>

theorem make_frames_count:
  assumes "1 \<le> max_frames"
  shows "\<exists>fs. make_frames max_frames x y z = Inr fs \<and>
           length fs = (length x - 1) div max 1 (length x div max_frames) \<and>
           map frame_name fs = map (\<lambda>k. (k + 1) * max 1 (length x div max_frames)) [0..<length fs] \<and>
           length fs \<le> 2 * max_frames - 2"
proof -
  have m: "0 < max_frames" using assms by simp
  show ?thesis
    using frame_count_bound[OF m, of "length x"]
    by (simp add: make_frames_eq[OF m] frame_at_def comp_def)
qed

text \<open>Five samples and a budget of three frames: the stride is 1 and four frames come out.\<close>

theorem make_frames_count_witness:
  "1 \<le> (3::nat) \<and>
   (\<exists>fs. make_frames 3 [1, 2, 3, 4, 5::real] [1, 2, 3, 4, 5::real] [1, 2, 3, 4, 5::real] = Inr fs \<and>
      length fs = (length [1, 2, 3, 4, 5::real] - 1) div max 1 (length [1, 2, 3, 4, 5::real] div 3) \<and>
      map frame_name fs = map (\<lambda>k. (k + 1) * max 1 (length [1, 2, 3, 4, 5::real] div 3)) [0..<length fs] \<and>
      length fs \<le> 2 * 3 - 2)"
  using make_frames_count[of 3 "[1, 2, 3, 4, 5::real]" "[1, 2, 3, 4, 5::real]" "[1, 2, 3, 4, 5::real]"] by simp

text \<open>
  The claim's bound fails for the built-in trajectories: 10000 samples and the budget 300
  give the stride 33 and 303 frames.
\<close>

theorem animate_frames_count_counterexample:
  "map_sum id length
     (animate_frames (replicate 10000 (0::real)) (replicate 10000 0) (replicate 10000 0)) = Inr 303"
  by (simp add: animate_frames_def make_frames_eq)

text \<open>
  Claim C3, as the code has it. The stops of \<open>range(step, len(x), step)\<close> lie strictly
  below \<open>len(x)\<close>, so the last frame is never the whole trajectory: when a frame is
  emitted at all (the trajectory is longer than the stride), the last one holds the
  largest multiple of the stride below \<open>length x\<close>, which leaves out at least one and at
  most \<open>stride\<close> trailing samples.
\<close>

theorem last_frame_short:
  assumes "1 \<le> max_frames" and "make_frames max_frames x y z = Inr fs"
  shows "(fs = [] \<longleftrightarrow> length x \<le> max 1 (length x div max_frames)) \<and>
         (fs \<noteq> [] \<longrightarrow>
            last fs = frame_at x y z (((length x - 1) div max 1 (length x div max_frames))
                                        * max 1 (length x div max_frames)) \<and>
            length (frame_x (last fs)) =
              ((length x - 1) div max 1 (length x div max_frames)) * max 1 (length x div max_frames) \<and>
            length (frame_x (last fs)) < length x \<and>
            length x \<le> length (frame_x (last fs)) + max 1 (length x div max_frames))"
proof -
  define s where "s = max 1 (length x div max_frames)"
  define n where "n = length x"
  define c where "c = (n - 1) div s"
  have m: "0 < max_frames" using assms(1) by simp
  have s: "0 < s" by (simp add: s_def)
  have fs: "fs = map (\<lambda>k. frame_at x y z ((k + 1) * s)) [0..<c]"
    using assms(2) make_frames_eq[OF m, of x y z] by (simp add: s_def c_def n_def)
  have empty: "fs = [] \<longleftrightarrow> n \<le> s"
  proof -
    have "c = 0 \<longleftrightarrow> n - 1 < s" using s by (simp add: c_def div_eq_0_iff)
    also have "\<dots> \<longleftrightarrow> n \<le> s" using s by auto
    finally show ?thesis by (simp add: fs)
  qed
  have nonempty: "last fs = frame_at x y z (c * s) \<and> length (frame_x (last fs)) = c * s \<and>
      length (frame_x (last fs)) < n \<and> n \<le> length (frame_x (last fs)) + s" if "fs \<noteq> []"
  proof -
    from that have c: "0 < c" by (simp add: fs)
    then have n: "0 < n" by (cases n) (simp_all add: c_def)
    have "s + (c - 1) * s = c * s" using c by (cases c) simp_all
    then have l: "last fs = frame_at x y z (c * s)"
      using c by (simp add: fs last_map last_conv_nth)
    have le: "c * s \<le> n - 1" by (simp add: c_def)
    then have lt: "c * s < n" using n by simp
    have "n - 1 < (c + 1) * s" unfolding c_def using s by (metis Suc_eq_plus1 dividend_less_div_times mult.commute mult_Suc)
    then have up: "n \<le> c * s + s" by simp
    have len: "length (frame_x (last fs)) = c * s" using lt by (simp add: l frame_at_def n_def)
    show ?thesis using l len lt up by simp
  qed
  show ?thesis using empty nonempty unfolding c_def s_def n_def by blast
qed

text \<open>Three samples and a budget of two frames: the last frame holds two of the three.\<close>

theorem last_frame_short_witness:
  "1 \<le> (2::nat) \<and>
   make_frames 2 [1, 2, 3::real] [4, 5, 6] [7, 8, 9] =
     Inr [\<lparr>frame_x = [1], frame_y = [4], frame_z = [7], frame_name = 1\<rparr>,
          \<lparr>frame_x = [1, 2], frame_y = [4, 5], frame_z = [7, 8], frame_name = 2\<rparr>] \<and>
   length (frame_x (last [\<lparr>frame_x = [1::real], frame_y = [4::real], frame_z = [7::real], frame_name = 1\<rparr>,
          \<lparr>frame_x = [1, 2], frame_y = [4, 5], frame_z = [7, 8], frame_name = 2\<rparr>])) = 2 \<and>
   (2::nat) < length [1, 2, 3::real]"
proof -
  have h: "make_frames 2 [1, 2, 3::real] [4, 5, 6] [7, 8, 9] =
     Inr [\<lparr>frame_x = [1], frame_y = [4], frame_z = [7], frame_name = 1\<rparr>,
          \<lparr>frame_x = [1, 2], frame_y = [4, 5], frame_z = [7, 8], frame_name = 2\<rparr>]"
    by (simp add: make_frames_def py_range_def frame_at_def)
  have m: "1 \<le> (2::nat)" by simp
  from last_frame_short[OF m h] h show ?thesis by (simp add: frame_at_def)
qed

text \<open>
  The final frame of a three-sample trajectory has length 2, and that of a built-in
  trajectory of 10000 samples has length 9999.
\<close>

theorem last_frame_counterexample:
  "map_sum id (\<lambda>fs. length (frame_x (last fs)))
     (animate_frames [1, 2, 3::real] [4, 5, 6] [7, 8, 9]) = Inr 2 \<and>
   map_sum id (\<lambda>fs. length (frame_x (last fs)))
     (animate_frames (replicate 10000 (0::real)) (replicate 10000 0) (replicate 10000 0)) = Inr 9999"
proof -
  have small: "map_sum id (\<lambda>fs. length (frame_x (last fs)))
     (animate_frames [1, 2, 3::real] [4, 5, 6] [7, 8, 9]) = Inr 2"
    by (simp add: animate_frames_def make_frames_def py_range_def frame_at_def)
  have ne: "[0..<303] \<noteq> []" by simp
  have l: "last [0..<303] = 302" using last_upt[of 0 303] by simp
  have big: "map_sum id (\<lambda>fs. length (frame_x (last fs)))
     (animate_frames (replicate 10000 (0::real)) (replicate 10000 0) (replicate 10000 0)) = Inr 9999"
    by (simp add: animate_frames_def make_frames_eq last_map[OF ne] l frame_at_def)
  show ?thesis using small big by (rule conjI)
qed

text \<open>
  Claim C4. Every frame that \<open>make_frames\<close> returns is a prefix of the trajectory, in
  each of the three coordinate arrays, and each frame after the first strictly extends
  the frame before it. The coordinate arrays are the columns of one solution array, so
  they have one length.
\<close>

theorem frames_strictly_growing:
  assumes "make_frames max_frames x y z = Inr fs"
    and "length y = length x" and "length z = length x"
  shows "(\<forall>f \<in> set fs. prefix (frame_x f) x \<and> prefix (frame_y f) y \<and> prefix (frame_z f) z) \<and>
         (\<forall>j. Suc j < length fs \<longrightarrow>
            strict_prefix (frame_x (fs ! j)) (frame_x (fs ! Suc j)) \<and>
            strict_prefix (frame_y (fs ! j)) (frame_y (fs ! Suc j)) \<and>
            strict_prefix (frame_z (fs ! j)) (frame_z (fs ! Suc j)))"
proof -
  define s where "s = max 1 (length x div max_frames)"
  define c where "c = (length x - 1) div s"
  have m: "0 < max_frames" using assms(1) by (cases "max_frames = 0") (simp_all add: make_frames_def)
  have s: "0 < s" by (simp add: s_def)
  have fs: "fs = map (\<lambda>k. frame_at x y z ((k + 1) * s)) [0..<c]"
    using assms(1) make_frames_eq[OF m, of x y z] by (simp add: s_def c_def)
  have pre: "prefix (frame_x f) x \<and> prefix (frame_y f) y \<and> prefix (frame_z f) z" if "f \<in> set fs" for f
    using that by (auto simp: fs frame_at_def take_is_prefix)
  have grow: "strict_prefix (frame_x (fs ! j)) (frame_x (fs ! Suc j)) \<and>
            strict_prefix (frame_y (fs ! j)) (frame_y (fs ! Suc j)) \<and>
            strict_prefix (frame_z (fs ! j)) (frame_z (fs ! Suc j))" if "Suc j < length fs" for j
  proof -
    from that have j: "Suc j < c" by (simp add: fs)
    have lt: "(j + 1) * s < (Suc j + 1) * s" using s by simp
    have "(Suc j + 1) * s < length x" using frame_stop_below[OF s, of "Suc j" "length x"] j by (simp add: c_def)
    then have le: "(Suc j + 1) * s \<le> length x" by simp
    have "fs ! j = frame_at x y z ((j + 1) * s)" "fs ! Suc j = frame_at x y z ((Suc j + 1) * s)"
      using j by (simp_all add: fs)
    then show ?thesis
      using take_strict_prefix[OF lt le] take_strict_prefix[OF lt, of y] take_strict_prefix[OF lt, of z] le assms(2,3)
      by (simp add: frame_at_def)
  qed
  show ?thesis using pre grow by blast
qed

text \<open>Three samples and a budget of two frames: the two frames, one extending the other.\<close>

theorem frames_strictly_growing_witness:
  "make_frames 2 [1, 2, 3::real] [4, 5, 6] [7, 8, 9] =
     Inr [\<lparr>frame_x = [1], frame_y = [4], frame_z = [7], frame_name = 1\<rparr>,
          \<lparr>frame_x = [1, 2], frame_y = [4, 5], frame_z = [7, 8], frame_name = 2\<rparr>] \<and>
   length [4, 5, 6::real] = length [1, 2, 3::real] \<and> length [7, 8, 9::real] = length [1, 2, 3::real] \<and>
   prefix [1] [1, 2, 3::real] \<and> prefix [4, 5] [4, 5, 6::real] \<and>
   strict_prefix [1] [1, 2::real] \<and> strict_prefix [4] [4, 5::real] \<and> strict_prefix [7] [7, 8::real]"
proof -
  have h: "make_frames 2 [1, 2, 3::real] [4, 5, 6] [7, 8, 9] =
     Inr [\<lparr>frame_x = [1], frame_y = [4], frame_z = [7], frame_name = 1\<rparr>,
          \<lparr>frame_x = [1, 2], frame_y = [4, 5], frame_z = [7, 8], frame_name = 2\<rparr>]"
    by (simp add: make_frames_def py_range_def frame_at_def)
  have "Suc 0 < length [\<lparr>frame_x = [1::real], frame_y = [4::real], frame_z = [7::real], frame_name = 1\<rparr>,
          \<lparr>frame_x = [1, 2], frame_y = [4, 5], frame_z = [7, 8], frame_name = 2\<rparr>]" by simp
  with frames_strictly_growing[OF h] h show ?thesis by fastforce
qed

text \<open>
  Claim C7. The catalog lookup returns the stored definition for each of the three
  registered keys and fails for every other name, \<open>''Nonexistent''\<close> among them. The
  failure is the KeyError of the dictionary subscript, which the specification names
  UnknownAttractorError.
\<close>

theorem get_definition_registered:
  "(selected_name \<in> {''Lorenz'', ''Rossler'', ''Dadras''} \<longrightarrow>
      (\<exists>config. ATTRACTORS selected_name = Some config \<and> get_definition selected_name = Inr config)) \<and>
   (selected_name \<notin> {''Lorenz'', ''Rossler'', ''Dadras''} \<longrightarrow>
      get_definition selected_name = Inl (KeyError selected_name)) \<and>
   get_definition ''Lorenz'' = Inr lorenz_attractor \<and>
   get_definition ''Rossler'' = Inr rossler_attractor \<and>
   get_definition ''Dadras'' = Inr dadras_attractor \<and>
   get_definition ''Nonexistent'' = Inl (KeyError ''Nonexistent'')"
  by (simp add: get_definition_def getitem_def ATTRACTORS_def)

text \<open>A registered key and an unregistered name.\<close>

theorem get_definition_registered_witness:
  "''Rossler'' \<in> {''Lorenz'', ''Rossler'', ''Dadras''} \<and>
   get_definition ''Rossler'' = Inr rossler_attractor \<and>
   ''Henon'' \<notin> {''Lorenz'', ''Rossler'', ''Dadras''} \<and>
   get_definition ''Henon'' = Inl (KeyError ''Henon'')"
  using get_definition_registered[of "''Rossler''"] get_definition_registered[of "''Henon''"]
  by simp

text \<open>
  Claim C9. The catalog entry under the key \<open>''Lorenz''\<close>: its equation, the names and
  defaults of its parameters, its initial state, and its time domain, whose grid has
  10000 points, the first at 0 and the last at 50.
\<close>

theorem lorenz_entry:
  "get_definition ''Lorenz'' = Inr lorenz_attractor \<and>
   equation lorenz_attractor = lorenz \<and>
   lorenz [x, y, z] t [sigma, rho, beta] =
     Inr [sigma * (y - x), x * (rho - z) - y, x * y - beta * z] \<and>
   map AttractorParam.name (params lorenz_attractor) = [''sigma'', ''rho'', ''beta''] \<and>
   map default (params lorenz_attractor) = [10, 28, 2.67] \<and>
   initial_conditions lorenz_attractor = [0, 1.5, 15] \<and>
   time_defaults lorenz_attractor ''t_min'' = Some 0 \<and>
   time_defaults lorenz_attractor ''t_max'' = Some 50 \<and>
   time_defaults lorenz_attractor ''n'' = Some 10000 \<and>
   (\<exists>grid. linspace 0 50 10000 = Inr grid \<and> length grid = 10000 \<and> hd grid = 0 \<and> last grid = 50)"
proof -
  obtain grid where g: "linspace 0 50 10000 = Inr grid" "length grid = nat 10000"
    using linspace_length[of 10000 0 50] by auto
  have "hd grid = 0 \<and> last grid = 50" using linspace_ends[OF _ g(1)] by simp
  with g have "\<exists>grid. linspace 0 50 10000 = Inr grid \<and> length grid = 10000 \<and> hd grid = 0 \<and> last grid = 50"
    by simp
  then show ?thesis
    by (simp add: get_definition_def getitem_def ATTRACTORS_def lorenz_attractor_def)
qed

text \<open>The derivative at the initial state, for the default parameters.\<close>

theorem lorenz_entry_witness:
  "lorenz [0, 1.5, 15] 0 [10, 28, 2.67] = Inr [15, - 1.5, - 40.05]"
  using lorenz_entry[of 0 "1.5" 15 0 10 28 "2.67"] by simp

text \<open>
  Claim C10. Every registered key differs from the \<open>name\<close> field of the definition stored
  under it: the lookup succeeds by the key and fails by that name.
\<close>

theorem registry_key_not_name:
  assumes "ATTRACTORS key = Some config"
  shows "key \<in> {''Lorenz'', ''Rossler'', ''Dadras''} \<and>
         AttractorConfig.name config \<noteq> key \<and>
         get_definition key = Inr config \<and>
         get_definition (AttractorConfig.name config) = Inl (KeyError (AttractorConfig.name config)) \<and>
         ATTRACTORS ''Lorenz'' = Some lorenz_attractor \<and>
         AttractorConfig.name lorenz_attractor = ''lorenz'' \<and>
         ATTRACTORS ''Rossler'' = Some rossler_attractor \<and>
         AttractorConfig.name rossler_attractor = ''Rossler attractor'' \<and>
         ATTRACTORS ''Dadras'' = Some dadras_attractor \<and>
         AttractorConfig.name dadras_attractor = ''Dadras attractor''"
proof -
  have names: "AttractorConfig.name lorenz_attractor = ''lorenz''"
    "AttractorConfig.name rossler_attractor = ''Rossler attractor''"
    "AttractorConfig.name dadras_attractor = ''Dadras attractor''"
    by (simp_all add: lorenz_attractor_def rossler_attractor_def dadras_attractor_def)
  have stored: "ATTRACTORS ''Lorenz'' = Some lorenz_attractor"
    "ATTRACTORS ''Rossler'' = Some rossler_attractor" "ATTRACTORS ''Dadras'' = Some dadras_attractor"
    by (simp_all add: ATTRACTORS_def)
  have none: "ATTRACTORS ''lorenz'' = None" "ATTRACTORS ''Rossler attractor'' = None"
    "ATTRACTORS ''Dadras attractor'' = None"
    by (simp_all add: ATTRACTORS_def)
  have key: "get_definition key = Inr config"
    using assms by (simp add: get_definition_def getitem_def)
  have "key \<in> {''Lorenz'', ''Rossler'', ''Dadras''} \<and> AttractorConfig.name config \<noteq> key \<and>
      get_definition (AttractorConfig.name config) = Inl (KeyError (AttractorConfig.name config))"
    using ATTRACTORS_cases[OF assms]
  proof (elim disjE conjE)
    assume "key = ''Lorenz''" "config = lorenz_attractor"
    then show ?thesis using names(1) none(1) by (simp add: get_definition_def getitem_def)
  next
    assume "key = ''Rossler''" "config = rossler_attractor"
    then show ?thesis using names(2) none(2) by (simp add: get_definition_def getitem_def)
  next
    assume "key = ''Dadras''" "config = dadras_attractor"
    then show ?thesis using names(3) none(3) by (simp add: get_definition_def getitem_def)
  qed
  with key names stored show ?thesis by simp
qed

text \<open>The entry registered as \<open>''Rossler''\<close>, whose name field is \<open>''Rossler attractor''\<close>.\<close>

theorem registry_key_not_name_witness:
  "ATTRACTORS ''Rossler'' = Some rossler_attractor \<and>
   AttractorConfig.name rossler_attractor \<noteq> ''Rossler'' \<and>
   get_definition ''Rossler'' = Inr rossler_attractor \<and>
   get_definition ''Rossler attractor'' = Inl (KeyError ''Rossler attractor'')"
proof -
  have h: "ATTRACTORS ''Rossler'' = Some rossler_attractor" by (simp add: ATTRACTORS_def)
  have n: "AttractorConfig.name rossler_attractor = ''Rossler attractor''"
    by (simp add: rossler_attractor_def)
  from registry_key_not_name[OF h] show ?thesis by (simp add: n)
qed

text \<open>
  Claim C1, as the code has it. \<open>solve_attractor\<close> fills in no defaults, so it is called
  with the full mapping \<open>get_default_params config\<close> rather than with an empty one. For
  each of the three catalog entries it then binds the defaults in schema order, builds a
  grid of 10000 points, the entry's \<open>n\<close>, strictly ascending from 0 to the entry's
  \<open>t_max\<close>, and returns what the solver returns for them; with a solver that returns
  one state per point of such a grid the trajectory has 10000 states.
\<close>

theorem solve_attractor_defaults:
  assumes "ATTRACTORS key = Some config"
  shows "time_defaults config ''n'' = Some 10000 \<and>
         (\<exists>t_max t.
            time_defaults config ''t_min'' = Some 0 \<and>
            time_defaults config ''t_max'' = Some t_max \<and>
            linspace 0 (real_of_int t_max) 10000 = Inr t \<and>
            length t = 10000 \<and> sorted_wrt (<) t \<and> hd t = 0 \<and> last t = real_of_int t_max \<and>
            solve_attractor odeint config (get_default_params config) =
              odeint (equation config) (initial_conditions config) t (map default (params config))) \<and>
         (row_per_sample odeint config \<longrightarrow>
            (\<exists>traj. solve_attractor odeint config (get_default_params config) = Inr traj \<and>
                    length traj = 10000))"
proof -
  have n: "time_defaults config ''n'' = Some 10000"
    using builtin_time_defaults[OF assms] by blast
  have args: "param_args (get_default_params config) (params config) = Inr (map default (params config))"
    by (rule default_args[OF builtin_distinct_names[OF assms]])
  from solve_attractor_grid[OF assms] obtain t_max t where
    g: "time_defaults config ''t_min'' = Some 0" "time_defaults config ''t_max'' = Some t_max"
       "linspace 0 (real_of_int t_max) 10000 = Inr t" "length t = 10000" "sorted_wrt (<) t"
       "hd t = 0" "last t = real_of_int t_max"
    and sol: "\<And>odeint param_values.
       solve_attractor odeint config param_values =
         (case param_args param_values (params config) of
            Inl e \<Rightarrow> Inl e
          | Inr args \<Rightarrow> odeint (equation config) (initial_conditions config) t args)"
    by blast
  have eq: "solve_attractor odeint config (get_default_params config) =
      odeint (equation config) (initial_conditions config) t (map default (params config))"
    by (simp add: sol args)
  have "\<exists>traj. solve_attractor odeint config (get_default_params config) = Inr traj \<and>
      length traj = 10000" if "row_per_sample odeint config"
  proof -
    have "t \<noteq> []" using g(4) by auto
    with g(5) have "t \<noteq> [] \<and> sorted_wrt (<) t \<and>
        length (map default (params config)) = length (params config)" by simp
    from that[unfolded row_per_sample_def, rule_format, OF this] obtain rows where
      "odeint (equation config) (initial_conditions config) t (map default (params config)) = Inr rows"
      "length rows = length t"
      by blast
    with eq g(4) show ?thesis by simp
  qed
  with n g eq show ?thesis by blast
qed

text \<open>The Lorenz entry with its defaults, solved by the reference solver.\<close>

theorem solve_attractor_defaults_witness:
  "ATTRACTORS ''Lorenz'' = Some lorenz_attractor \<and>
   row_per_sample euler_odeint lorenz_attractor \<and>
   (\<exists>traj. solve_attractor euler_odeint lorenz_attractor (get_default_params lorenz_attractor) = Inr traj \<and>
           length traj = 10000)"
proof -
  have h: "ATTRACTORS ''Lorenz'' = Some lorenz_attractor" by (simp add: ATTRACTORS_def)
  from solve_attractor_defaults[OF h, of euler_odeint] euler_row_per_sample[OF h] h
  show ?thesis by simp
qed

text \<open>
  With an empty mapping the subscript \<open>param_values[p.name]\<close> raises KeyError for the
  first parameter of each catalog entry, before the solver is reached.
\<close>

theorem solve_attractor_empty_counterexample:
  "solve_attractor euler_odeint lorenz_attractor Map.empty = Inl (KeyError ''sigma'') \<and>
   solve_attractor euler_odeint rossler_attractor Map.empty = Inl (KeyError ''a'') \<and>
   solve_attractor euler_odeint dadras_attractor Map.empty = Inl (KeyError ''a'')"
proof -
  have l: "ATTRACTORS ''Lorenz'' = Some lorenz_attractor"
    and r: "ATTRACTORS ''Rossler'' = Some rossler_attractor"
    and d: "ATTRACTORS ''Dadras'' = Some dadras_attractor"
    by (simp_all add: ATTRACTORS_def)
  have "param_args Map.empty (params lorenz_attractor) = Inl (KeyError ''sigma'')"
    "param_args Map.empty (params rossler_attractor) = Inl (KeyError ''a'')"
    "param_args Map.empty (params dadras_attractor) = Inl (KeyError ''a'')"
    by (simp_all add: lorenz_attractor_def rossler_attractor_def dadras_attractor_def getitem_def)
  with solve_attractor_builtin[OF l, of euler_odeint Map.empty]
    solve_attractor_builtin[OF r, of euler_odeint Map.empty]
    solve_attractor_builtin[OF d, of euler_odeint Map.empty]
  show ?thesis by auto
qed

text \<open>
  Claim C5, as the code has it. The bound argument of every parameter is the value that
  \<open>param_values\<close> holds for its name, in schema order, provided every schema name is
  present; otherwise the first schema name that is missing raises KeyError and is not
  replaced by the default.
  \<open>get_default_params\<close> maps every name of a schema without repeated names to its
  default, so binding it gives the defaults, while binding the empty mapping fails at the
  first parameter. For a catalog entry the KeyError is the result of \<open>solve_attractor\<close>.
\<close>

theorem param_args_binding:
  "((\<forall>p \<in> set (params config). param_values (AttractorParam.name p) \<noteq> None) \<longrightarrow>
      param_args param_values (params config) =
        Inr (map (\<lambda>p. the (param_values (AttractorParam.name p))) (params config))) \<and>
   ((\<exists>p \<in> set (params config). param_values (AttractorParam.name p) = None) \<longrightarrow>
      (\<exists>qs q rs. params config = qs @ q # rs \<and>
         (\<forall>p \<in> set qs. param_values (AttractorParam.name p) \<noteq> None) \<and>
         param_values (AttractorParam.name q) = None \<and>
         param_args param_values (params config) = Inl (KeyError (AttractorParam.name q)))) \<and>
   (distinct (map AttractorParam.name (params config)) \<longrightarrow>
      (\<forall>p \<in> set (params config).
         get_default_params config (AttractorParam.name p) = Some (default p)) \<and>
      param_args (get_default_params config) (params config) = Inr (map default (params config))) \<and>
   (params config \<noteq> [] \<longrightarrow>
      param_args Map.empty (params config) =
        Inl (KeyError (AttractorParam.name (hd (params config))))) \<and>
   (\<forall>key e. ATTRACTORS key = Some config \<and> param_args param_values (params config) = Inl e \<longrightarrow>
      solve_attractor odeint config param_values = Inl e)"
proof (intro conjI impI allI)
  assume "\<forall>p \<in> set (params config). param_values (AttractorParam.name p) \<noteq> None"
  then show "param_args param_values (params config) =
        Inr (map (\<lambda>p. the (param_values (AttractorParam.name p))) (params config))"
    by (rule param_args_present)
next
  assume "\<exists>p \<in> set (params config). param_values (AttractorParam.name p) = None"
  then show "\<exists>qs q rs. params config = qs @ q # rs \<and>
         (\<forall>p \<in> set qs. param_values (AttractorParam.name p) \<noteq> None) \<and>
         param_values (AttractorParam.name q) = None \<and>
         param_args param_values (params config) = Inl (KeyError (AttractorParam.name q))"
    by (rule param_args_absent_first)
next
  assume d: "distinct (map AttractorParam.name (params config))"
  show "\<forall>p \<in> set (params config).
         get_default_params config (AttractorParam.name p) = Some (default p)"
    using defaults_lookup[OF d] by (simp add: get_default_params_def)
  show "param_args (get_default_params config) (params config) = Inr (map default (params config))"
    by (rule default_args[OF d])
next
  assume "params config \<noteq> []"
  then show "param_args Map.empty (params config) =
        Inl (KeyError (AttractorParam.name (hd (params config))))"
    by (cases "params config") (simp_all add: getitem_def)
next
  fix key e
  assume "ATTRACTORS key = Some config \<and> param_args param_values (params config) = Inl e"
  then show "solve_attractor odeint config param_values = Inl e"
    using solve_attractor_builtin[of key config odeint param_values] by auto
qed

text \<open>
  The Rossler schema: a full mapping, the defaults, the empty mapping, and a mapping that
  holds only \<open>a\<close>, which fails for \<open>b\<close>, the first of the two missing names.
\<close>

theorem param_args_binding_witness:
  "param_args [''a'' \<mapsto> 1, ''b'' \<mapsto> 0, ''c'' \<mapsto> 7] (params rossler_attractor) = Inr [1, 0, 7] \<and>
   distinct (map AttractorParam.name (params rossler_attractor)) \<and>
   param_args (get_default_params rossler_attractor) (params rossler_attractor) = Inr [0.2, 0.2, 5.7] \<and>
   params rossler_attractor \<noteq> [] \<and>
   param_args Map.empty (params rossler_attractor) = Inl (KeyError ''a'') \<and>
   (\<exists>p \<in> set (params rossler_attractor). [''a'' \<mapsto> 1::real] (AttractorParam.name p) = None) \<and>
   param_args [''a'' \<mapsto> 1] (params rossler_attractor) = Inl (KeyError ''b'')"
proof -
  let ?pv = "[''a'' \<mapsto> 1, ''b'' \<mapsto> 0, ''c'' \<mapsto> 7::real]"
  let ?pw = "[''a'' \<mapsto> 1::real]"
  have p: "params rossler_attractor =
      [\<lparr>AttractorParam.name = ''a'', default = 0.2, min_val = 0.0, max_val = 1.0, step = 0.01\<rparr>,
       \<lparr>AttractorParam.name = ''b'', default = 0.2, min_val = 0.0, max_val = 1.0, step = 0.01\<rparr>,
       \<lparr>AttractorParam.name = ''c'', default = 5.7, min_val = 0.0, max_val = 20.0, step = 0.01\<rparr>]"
    by (simp add: rossler_attractor_def)
  have h1: "\<forall>p \<in> set (params rossler_attractor). ?pv (AttractorParam.name p) \<noteq> None"
    by (simp add: p)
  have h3: "distinct (map AttractorParam.name (params rossler_attractor))" by (simp add: p)
  have h4: "params rossler_attractor \<noteq> []" by (simp add: p)
  note T = param_args_binding[of rossler_attractor ?pv]
  have a: "param_args ?pv (params rossler_attractor) =
      Inr (map (\<lambda>p. the (?pv (AttractorParam.name p))) (params rossler_attractor))"
    by (rule T[THEN conjunct1, THEN mp, OF h1])
  have b: "param_args (get_default_params rossler_attractor) (params rossler_attractor) =
      Inr (map default (params rossler_attractor))"
    by (rule T[THEN conjunct2, THEN conjunct2, THEN conjunct1, THEN mp, OF h3, THEN conjunct2])
  have c: "param_args Map.empty (params rossler_attractor) =
      Inl (KeyError (AttractorParam.name (hd (params rossler_attractor))))"
    by (rule T[THEN conjunct2, THEN conjunct2, THEN conjunct2, THEN conjunct1, THEN mp, OF h4])
  have a': "param_args ?pv (params rossler_attractor) = Inr [1, 0, 7]"
    unfolding a by (simp add: p)
  have b': "param_args (get_default_params rossler_attractor) (params rossler_attractor) =
      Inr [0.2, 0.2, 5.7]"
    unfolding b by (simp add: p)
  have c': "param_args Map.empty (params rossler_attractor) = Inl (KeyError ''a'')"
    unfolding c by (simp add: p)
  have h2: "\<exists>p \<in> set (params rossler_attractor). ?pw (AttractorParam.name p) = None"
    by (simp add: p)
  from param_args_binding[of rossler_attractor ?pw, THEN conjunct2, THEN conjunct1, THEN mp, OF h2]
  obtain qs q rs where
    d: "params rossler_attractor = qs @ q # rs"
       "\<forall>p \<in> set qs. ?pw (AttractorParam.name p) \<noteq> None"
       "?pw (AttractorParam.name q) = None"
       "param_args ?pw (params rossler_attractor) = Inl (KeyError (AttractorParam.name q))"
    by blast
  have "AttractorParam.name q = ''b''"
    using d(1,2,3) unfolding p
    by (auto simp: append_eq_Cons_conv Cons_eq_append_conv split: if_splits)
  with d(4) have d': "param_args ?pw (params rossler_attractor) = Inl (KeyError ''b'')" by simp
  show ?thesis using a' b' c' h3 h4 h2 d' by (intro conjI)
qed

text \<open>
  For Dadras a mapping that holds only \<open>a\<close> raises KeyError for \<open>b\<close> instead of
  binding \<open>b\<close> to its default 2.7, and the empty mapping does not give the result of
  the defaults.
\<close>

theorem param_args_default_counterexample:
  "param_args [''a'' \<mapsto> 1] (params dadras_attractor) = Inl (KeyError ''b'') \<and>
   solve_attractor euler_odeint dadras_attractor [''a'' \<mapsto> 1] = Inl (KeyError ''b'') \<and>
   param_args (get_default_params dadras_attractor) (params dadras_attractor) =
     Inr [3, 2.7, 1.7, 2, 9] \<and>
   param_args Map.empty (params dadras_attractor) = Inl (KeyError ''a'')"
proof -
  have d: "ATTRACTORS ''Dadras'' = Some dadras_attractor" by (simp add: ATTRACTORS_def)
  have a: "param_args [''a'' \<mapsto> 1] (params dadras_attractor) = Inl (KeyError ''b'')"
    by (simp add: dadras_attractor_def getitem_def)
  have e: "param_args Map.empty (params dadras_attractor) = Inl (KeyError ''a'')"
    by (simp add: dadras_attractor_def getitem_def)
  have f: "param_args (get_default_params dadras_attractor) (params dadras_attractor) =
     Inr [3, 2.7, 1.7, 2, 9]"
    using default_args[OF builtin_distinct_names[OF d]] by (simp add: dadras_attractor_def)
  from solve_attractor_builtin[OF d, of euler_odeint "[''a'' \<mapsto> 1]"] a
  have "solve_attractor euler_odeint dadras_attractor [''a'' \<mapsto> 1] = Inl (KeyError ''b'')" by auto
  with a e f show ?thesis by simp
qed

text \<open>
  Claim C6, as the code has it. \<open>solve_attractor\<close> never compares a value with
  \<open>min_val\<close> or \<open>max_val\<close>. For a catalog entry, every mapping that holds all schema
  names is bound as it is and handed to the solver, whether its values lie inside, on or
  outside the bounds, and with a solver that returns one state per point of an ascending
  grid the call succeeds; the call fails before the solver exactly when a schema name is missing, with
  KeyError for that name.
\<close>

theorem solve_attractor_no_range_check:
  assumes "ATTRACTORS key = Some config"
  shows "((\<forall>p \<in> set (params config). param_values (AttractorParam.name p) \<noteq> None) \<longrightarrow>
            (\<exists>t. length t = 10000 \<and>
               solve_attractor odeint config param_values =
                 odeint (equation config) (initial_conditions config) t
                   (map (\<lambda>p. the (param_values (AttractorParam.name p))) (params config))) \<and>
            (row_per_sample odeint config \<longrightarrow>
               (\<exists>traj. solve_attractor odeint config param_values = Inr traj \<and>
                       length traj = 10000))) \<and>
         ((\<exists>p \<in> set (params config). param_values (AttractorParam.name p) = None) \<longrightarrow>
            (\<exists>q \<in> set (params config). param_values (AttractorParam.name q) = None \<and>
               solve_attractor odeint config param_values = Inl (KeyError (AttractorParam.name q))))"
proof (intro conjI impI)
  assume all: "\<forall>p \<in> set (params config). param_values (AttractorParam.name p) \<noteq> None"
  let ?args = "map (\<lambda>p. the (param_values (AttractorParam.name p))) (params config)"
  from solve_attractor_builtin[OF assms, of odeint param_values] param_args_present[OF all]
  obtain t where t: "length t = 10000"
    "solve_attractor odeint config param_values =
       odeint (equation config) (initial_conditions config) t ?args"
    and srt: "sorted_wrt (<) t"
    by auto
  then show "\<exists>t. length t = 10000 \<and>
               solve_attractor odeint config param_values =
                 odeint (equation config) (initial_conditions config) t ?args" by blast
  assume rp: "row_per_sample odeint config"
  have "t \<noteq> []" using t(1) by auto
  with srt have "t \<noteq> [] \<and> sorted_wrt (<) t \<and> length ?args = length (params config)" by simp
  from rp[unfolded row_per_sample_def, rule_format, OF this] obtain rows where
    "odeint (equation config) (initial_conditions config) t ?args = Inr rows" "length rows = length t"
    by blast
  with t show "\<exists>traj. solve_attractor odeint config param_values = Inr traj \<and> length traj = 10000"
    by simp
next
  assume "\<exists>p \<in> set (params config). param_values (AttractorParam.name p) = None"
  from param_args_absent[OF this] obtain q where
    q: "q \<in> set (params config)" "param_values (AttractorParam.name q) = None"
       "param_args param_values (params config) = Inl (KeyError (AttractorParam.name q))" by blast
  from solve_attractor_builtin[OF assms, of odeint param_values] q(3)
  have "solve_attractor odeint config param_values = Inl (KeyError (AttractorParam.name q))" by auto
  with q show "\<exists>q \<in> set (params config). param_values (AttractorParam.name q) = None \<and>
               solve_attractor odeint config param_values = Inl (KeyError (AttractorParam.name q))"
    by blast
qed

text \<open>
  Rossler with \<open>c\<close> on its upper bound 20 is solved, and a mapping without \<open>c\<close> raises
  KeyError for \<open>c\<close>.
\<close>

theorem solve_attractor_no_range_check_witness:
  "ATTRACTORS ''Rossler'' = Some rossler_attractor \<and>
   max_val (params rossler_attractor ! 2) = 20 \<and>
   row_per_sample euler_odeint rossler_attractor \<and>
   (\<exists>traj. solve_attractor euler_odeint rossler_attractor [''a'' \<mapsto> 0, ''b'' \<mapsto> 1, ''c'' \<mapsto> 20] = Inr traj \<and>
           length traj = 10000) \<and>
   solve_attractor euler_odeint rossler_attractor [''a'' \<mapsto> 0, ''b'' \<mapsto> 1] = Inl (KeyError ''c'')"
proof -
  let ?pv = "[''a'' \<mapsto> 0, ''b'' \<mapsto> 1, ''c'' \<mapsto> 20::real]"
  let ?pw = "[''a'' \<mapsto> 0, ''b'' \<mapsto> 1::real]"
  have h: "ATTRACTORS ''Rossler'' = Some rossler_attractor" by (simp add: ATTRACTORS_def)
  have e: "row_per_sample euler_odeint rossler_attractor" by (rule euler_row_per_sample[OF h])
  have h1: "\<forall>p \<in> set (params rossler_attractor). ?pv (AttractorParam.name p) \<noteq> None"
    by (simp add: rossler_params)
  have h2: "\<exists>p \<in> set (params rossler_attractor). ?pw (AttractorParam.name p) = None"
    by (simp add: rossler_params)
  have m: "max_val (params rossler_attractor ! 2) = 20" by (simp add: rossler_params)
  have a: "\<exists>traj. solve_attractor euler_odeint rossler_attractor ?pv = Inr traj \<and> length traj = 10000"
    by (rule solve_attractor_no_range_check[OF h, of ?pv euler_odeint,
          THEN conjunct1, THEN mp, OF h1, THEN conjunct2, THEN mp, OF e])
  from solve_attractor_no_range_check[OF h, of ?pw euler_odeint, THEN conjunct2, THEN mp, OF h2]
  have b: "solve_attractor euler_odeint rossler_attractor ?pw = Inl (KeyError ''c'')"
    by (auto simp: rossler_params)
  show ?thesis using h m e a b by (intro conjI)
qed

text \<open>
  Rossler with \<open>c = 100\<close>, outside its bounds from 0 to 20: the value is bound and the
  call returns a trajectory. A mapping that holds only \<open>c\<close> fails with KeyError for
  \<open>a\<close>, for the value 100 outside the bounds and for the value 5.7 inside them alike.
\<close>

theorem range_check_counterexample:
  "AttractorParam.name (params rossler_attractor ! 2) = ''c'' \<and>
   max_val (params rossler_attractor ! 2) < 100 \<and>
   param_args [''a'' \<mapsto> 0.2, ''b'' \<mapsto> 0.2, ''c'' \<mapsto> 100] (params rossler_attractor) =
     Inr [0.2, 0.2, 100] \<and>
   \<not> isl (solve_attractor euler_odeint rossler_attractor [''a'' \<mapsto> 0.2, ''b'' \<mapsto> 0.2, ''c'' \<mapsto> 100]) \<and>
   solve_attractor euler_odeint rossler_attractor [''c'' \<mapsto> 100] = Inl (KeyError ''a'') \<and>
   solve_attractor euler_odeint rossler_attractor [''c'' \<mapsto> 5.7] = Inl (KeyError ''a'')"
proof -
  let ?pv = "[''a'' \<mapsto> 0.2, ''b'' \<mapsto> 0.2, ''c'' \<mapsto> 100::real]"
  have h: "ATTRACTORS ''Rossler'' = Some rossler_attractor" by (simp add: ATTRACTORS_def)
  have n: "AttractorParam.name (params rossler_attractor ! 2) = ''c''"
    and m: "max_val (params rossler_attractor ! 2) < 100"
    by (simp_all add: rossler_params)
  have a: "param_args ?pv (params rossler_attractor) = Inr [0.2, 0.2, 100]"
    by (simp add: rossler_params getitem_def)
  from solve_attractor_builtin[OF h, of euler_odeint ?pv] obtain t where t0: "length t = 10000"
    "sorted_wrt (<) t"
    "solve_attractor euler_odeint rossler_attractor ?pv =
       (case param_args ?pv (params rossler_attractor) of
          Inl e \<Rightarrow> Inl e
        | Inr args \<Rightarrow>
            euler_odeint (equation rossler_attractor) (initial_conditions rossler_attractor) t args)"
    by blast
  have t: "solve_attractor euler_odeint rossler_attractor ?pv =
       euler_odeint (equation rossler_attractor) (initial_conditions rossler_attractor) t [0.2, 0.2, 100]"
    unfolding t0(3) a by simp
  have "t \<noteq> []" using t0(1) by auto
  with t0(2) have "t \<noteq> [] \<and> sorted_wrt (<) t \<and>
      length [0.2, 0.2, 100::real] = length (params rossler_attractor)"
    by (simp add: rossler_params)
  from euler_row_per_sample[OF h, unfolded row_per_sample_def, rule_format, OF this] obtain rows where
    "euler_odeint (equation rossler_attractor) (initial_conditions rossler_attractor) t [0.2, 0.2, 100]
       = Inr rows"
    by blast
  with t have b: "\<not> isl (solve_attractor euler_odeint rossler_attractor ?pv)" by simp
  have "param_args [''c'' \<mapsto> 100] (params rossler_attractor) = Inl (KeyError ''a'')"
    "param_args [''c'' \<mapsto> 5.7] (params rossler_attractor) = Inl (KeyError ''a'')"
    by (simp_all add: rossler_params getitem_def)
  with solve_attractor_builtin[OF h, of euler_odeint "[''c'' \<mapsto> 100]"]
    solve_attractor_builtin[OF h, of euler_odeint "[''c'' \<mapsto> 5.7]"]
  have c: "solve_attractor euler_odeint rossler_attractor [''c'' \<mapsto> 100] = Inl (KeyError ''a'')"
    "solve_attractor euler_odeint rossler_attractor [''c'' \<mapsto> 5.7] = Inl (KeyError ''a'')"
    by auto
  show ?thesis using n m a b c by (intro conjI)
qed

text \<open>
  Claim C8. Whenever the density branch returns a field, the field has one value per
  trajectory sample, in the order of the samples, whatever the sample bound is: the
  density function is fitted on the samples at the drawn indices and evaluated at every
  point of the whole trajectory. When the draw is without replacement and \<open>n\<close> is the
  length of the trajectory, the fit uses \<open>min max_sample_size (length x)\<close> distinct
  samples of the trajectory.
\<close>

theorem estimate_density_length:
  assumes "estimate_density choice gaussian_kde max_sample_size n x y = Inr density"
  shows "length density = length x \<and>
         (\<exists>indices xs ys kde.
            indices = choice (nat n) (nat (min max_sample_size n)) \<and>
            xs = map (\<lambda>i. x ! i) indices \<and> ys = map (\<lambda>i. y ! i) indices \<and>
            gaussian_kde (xs, ys) = Inr kde \<and>
            density = map kde (zip x y) \<and>
            (\<forall>i < length x. density ! i = kde (x ! i, y ! i)) \<and>
            (without_replacement choice \<and> n = int (length x) \<longrightarrow>
               length indices = min (nat max_sample_size) (length x) \<and> distinct indices \<and>
               (\<forall>i \<in> set indices. i < length x)))"
proof -
  let ?k = "nat (min max_sample_size n)"
  let ?ix = "choice (nat n) ?k"
  from estimate_density_Inr[OF assms] obtain xs ys kde where
    nn: "0 \<le> min max_sample_size n" and len: "length y = length x"
    and xs: "getitems x ?ix = Inr xs" and ys: "getitems y ?ix = Inr ys"
    and kde: "gaussian_kde (xs, ys) = Inr kde" and d: "density = map kde (zip x y)"
    by blast
  have l: "length density = length x" using d len by simp
  have pt: "\<forall>i < length x. density ! i = kde (x ! i, y ! i)" using d len by simp
  have draw: "length ?ix = min (nat max_sample_size) (length x) \<and> distinct ?ix \<and>
      (\<forall>i \<in> set ?ix. i < length x)" if w: "without_replacement choice" and n: "n = int (length x)"
  proof -
    have k: "?k = min (nat max_sample_size) (length x)" using n nn by (simp add: min_def)
    then have "?k \<le> nat n" using n by simp
    with w have "length ?ix = ?k \<and> distinct ?ix \<and> (\<forall>i \<in> set ?ix. i < nat n)"
      unfolding without_replacement_def by blast
    then show ?thesis using k n by simp
  qed
  have "?ix = choice (nat n) ?k \<and>
        map (\<lambda>i. x ! i) ?ix = map (\<lambda>i. x ! i) ?ix \<and> map (\<lambda>i. y ! i) ?ix = map (\<lambda>i. y ! i) ?ix \<and>
        gaussian_kde (map (\<lambda>i. x ! i) ?ix, map (\<lambda>i. y ! i) ?ix) = Inr kde \<and>
        density = map kde (zip x y) \<and>
        (\<forall>i < length x. density ! i = kde (x ! i, y ! i)) \<and>
        (without_replacement choice \<and> n = int (length x) \<longrightarrow>
           length ?ix = min (nat max_sample_size) (length x) \<and> distinct ?ix \<and>
           (\<forall>i \<in> set ?ix. i < length x))"
    using getitems_Inr[OF xs] getitems_Inr[OF ys] kde d pt draw by simp
  then show ?thesis using l by blast
qed

text \<open>
  Three samples and a sample bound of two, with the draw of the first indices and a fit
  that returns the function \<open>p \<mapsto> fst p + snd p\<close>.
\<close>

theorem estimate_density_length_witness:
  "estimate_density (\<lambda>n k. [0..<k]) (\<lambda>dataset. Inr (\<lambda>p. fst p + snd p)) 2 3 [1, 2, 3] [4, 5, 6] =
     Inr [5, 7, 9] \<and>
   length [5, 7, 9::real] = length [1, 2, 3::real] \<and>
   without_replacement (\<lambda>n k. [0..<k]) \<and>
   length ((\<lambda>n k. [0..<k]) (nat 3) (nat (min 2 3))) = min (nat 2) (length [1, 2, 3::real])"
proof -
  have h: "estimate_density (\<lambda>n k. [0..<k]) (\<lambda>dataset. Inr (\<lambda>p. fst p + snd p)) 2 3 [1, 2, 3] [4, 5, 6] =
     Inr [5, 7, 9]"
    by (simp add: estimate_density_def getitems_def)
  have w: "without_replacement (\<lambda>n k. [0..<k])" by (simp add: without_replacement_def)
  from estimate_density_length[OF h] h w show ?thesis by simp
qed

end
